theory Spec2Isabelle
  imports Main "HOL-Library.Word" "HOL-Library.Multiset"
begin

section \<open>The tag editor of chroma-ui (components/Explorer/Tags.tsx)\<close>

text \<open>
  The component \<^verbatim>\<open>Tags\<close> shows the tags of one datapoint, lets the user edit them as
  one comma-separated line, and on submit asks the tag store to add and to remove the
  tags by which the edited line differs from the original one. This theory embeds the
  component: its strings and the string methods it calls, its five state variables, its
  event handlers, and the calls it makes to the two mutations.
\<close>

subsection \<open>Strings\<close>

text \<open>
  A JavaScript string is a sequence of 16-bit code units. \<open>utf16\<close> writes an ASCII
  literal as such a sequence; it is used for examples only.
\<close>

type_synonym code_unit = "16 word"
type_synonym jsstring = "code_unit list"

definition utf16 :: "string \<Rightarrow> jsstring" where
  "utf16 cs = map of_char cs"

definition comma :: code_unit where
  "comma = 0x2C"

text \<open>
  \<^verbatim>\<open>String.prototype.trim\<close> removes white space and line terminators from both
  ends: TAB, LF, VT, FF, CR, SP, NBSP, the other space separators of Unicode (all in the
  basic plane, so one code unit each), LS, PS and the byte order mark.
\<close>

definition isWhiteSpace :: "code_unit \<Rightarrow> bool" where
  "isWhiteSpace c =
     ((0x9 \<le> c \<and> c \<le> 0xD) \<or> c = 0x20 \<or> c = 0xA0 \<or> c = 0x1680 \<or>
      (0x2000 \<le> c \<and> c \<le> 0x200A) \<or> c = 0x2028 \<or> c = 0x2029 \<or> c = 0x202F \<or>
      c = 0x205F \<or> c = 0x3000 \<or> c = 0xFEFF)"

definition trim :: "jsstring \<Rightarrow> jsstring" where
  "trim s = rev (dropWhile isWhiteSpace (rev (dropWhile isWhiteSpace s)))"

text \<open>
  \<^verbatim>\<open>s.split(sep)\<close> for a separator of one code unit: the pieces between the
  occurrences of the separator, in order. A string without the separator, the empty
  string included, is one piece.
\<close>

fun split_on :: "code_unit \<Rightarrow> jsstring \<Rightarrow> jsstring list" where
  "split_on sep [] = [[]]"
| "split_on sep (c # cs) =
     (if c = sep then [] # split_on sep cs
      else (case split_on sep cs of
              [] \<Rightarrow> [[c]]
            | p # ps \<Rightarrow> (c # p) # ps))"

text \<open>\<^verbatim>\<open>xs.join(sep)\<close>: the elements with the separator between neighbours.\<close>

fun join :: "jsstring \<Rightarrow> jsstring list \<Rightarrow> jsstring" where
  "join sep [] = []"
| "join sep [x] = x"
| "join sep (x # y # ys) = x @ sep @ join sep (y # ys)"

text \<open>
  \<^verbatim>\<open>xs.includes(x)\<close> on an array of strings: some element is the same sequence of
  code units.
\<close>

primrec arrayIncludes :: "jsstring list \<Rightarrow> jsstring \<Rightarrow> bool" where
  "arrayIncludes [] x = False"
| "arrayIncludes (y # ys) x = (y = x \<or> arrayIncludes ys x)"

subsection \<open>Parsing a tag line, and the diff of two tag lists\<close>

text \<open>
  \<^verbatim>\<open>tagString.split(",").map(tag => tag.trim())\<close>, the expression \<open>onSubmitName\<close>
  applies to the edited line and to the original one.
\<close>

definition parseTags :: "jsstring \<Rightarrow> jsstring list" where
  "parseTags s = map trim (split_on comma s)"

text \<open>
  The three filters of \<open>onSubmitName\<close>: \<^verbatim>\<open>remove\<close>, \<^verbatim>\<open>add\<close> and \<^verbatim>\<open>keep\<close>.
\<close>

definition removeTags :: "jsstring list \<Rightarrow> jsstring list \<Rightarrow> jsstring list" where
  "removeTags originalTagsArray newTagsArray =
     filter (\<lambda>x. \<not> arrayIncludes newTagsArray x) originalTagsArray"

definition addTags :: "jsstring list \<Rightarrow> jsstring list \<Rightarrow> jsstring list" where
  "addTags originalTagsArray newTagsArray =
     filter (\<lambda>x. \<not> arrayIncludes originalTagsArray x) newTagsArray"

definition keepTags :: "jsstring list \<Rightarrow> jsstring list \<Rightarrow> jsstring list" where
  "keepTags originalTagsArray newTagsArray =
     filter (\<lambda>x. arrayIncludes newTagsArray x) originalTagsArray"

subsection \<open>The component's state and the calls it makes\<close>

text \<open>
  The \<^verbatim>\<open>tags\<close> property is a list of objects read as \<^verbatim>\<open>tag.tag.name\<close>; the
  \<^verbatim>\<open>datapointId\<close> is an identifier the component only passes on.
\<close>

record tag_node =
  name :: jsstring

record tag_edge =
  tag :: tag_node

type_synonym datapoint_id = int

text \<open>An element of \<^verbatim>\<open>tags\<close> with the given name, for examples.\<close>

definition tagNamed :: "jsstring \<Rightarrow> tag_edge" where
  "tagNamed n = \<lparr>tag = \<lparr>name = n\<rparr>\<rparr>"

text \<open>
  A call of \<^verbatim>\<open>addTag(variables)\<close> or \<^verbatim>\<open>unTag(variables)\<close> with
  \<^verbatim>\<open>variables = { tagName, datapointIds: [datapointId] }\<close>. A call settles later,
  with or without an error.
\<close>

record variables =
  tagName :: jsstring
  datapointIds :: "datapoint_id list"

datatype request = AddTag variables | UnTag variables

datatype outcome = Succeeded | Failed

text \<open>
  The five \<^verbatim>\<open>useState\<close> variables of the component and its \<^verbatim>\<open>datapointId\<close>
  property, together with what the component has done to the tag store: \<open>calls\<close> lists
  every call made so far, in the order made, and \<open>outstanding\<close> the calls made and not
  yet settled.
\<close>

record component =
  datapointId :: datapoint_id
  isEditing :: bool
  isUpdating :: bool
  originalTagString :: jsstring
  tagString :: jsstring
  tagsArray :: "jsstring list"
  calls :: "request list"
  outstanding :: "request list"

text \<open>The initial values given to \<^verbatim>\<open>useState\<close>; nothing has been called.\<close>

definition initial :: "datapoint_id \<Rightarrow> component" where
  "initial dp =
     \<lparr>datapointId = dp, isEditing = False, isUpdating = False, originalTagString = [],
      tagString = [], tagsArray = [], calls = [], outstanding = []\<rparr>"

definition commaSpace :: jsstring where
  "commaSpace = [0x2C, 0x20]"

text \<open>The effect that runs after mounting and whenever \<^verbatim>\<open>tags\<close> changes.\<close>

definition useEffectTags :: "tag_edge list \<Rightarrow> component \<Rightarrow> component" where
  "useEffectTags tags c =
     (let tagStrings = map (\<lambda>t. name (tag t)) tags;
          allTags = join commaSpace tagStrings
      in c\<lparr>tagsArray := tagStrings, tagString := allTags, originalTagString := allTags\<rparr>)"

definition mount :: "tag_edge list \<Rightarrow> datapoint_id \<Rightarrow> component" where
  "mount tags dp = useEffectTags tags (initial dp)"

text \<open>\<^verbatim>\<open>onChange\<close> of the text area: \<open>checkAndSetName\<close> stores the typed text.\<close>

definition checkAndSetName :: "jsstring \<Rightarrow> component \<Rightarrow> component" where
  "checkAndSetName v c = c\<lparr>tagString := v\<rparr>"

text \<open>\<^verbatim>\<open>onClick\<close> of the tag display: \<^verbatim>\<open>setIsEditing(!isEditing)\<close>.\<close>

definition onClick :: "component \<Rightarrow> component" where
  "onClick c = c\<lparr>isEditing := \<not> isEditing c\<rparr>"

definition handleBlur :: "component \<Rightarrow> component" where
  "handleBlur c = c\<lparr>isEditing := False, tagString := originalTagString c\<rparr>"

text \<open>Making calls: each is recorded and is outstanding until it settles.\<close>

definition issue :: "request list \<Rightarrow> component \<Rightarrow> component" where
  "issue rs c = c\<lparr>calls := calls c @ rs, outstanding := outstanding c @ rs\<rparr>"

definition addRequest :: "datapoint_id \<Rightarrow> jsstring \<Rightarrow> request" where
  "addRequest dp tagToAdd = AddTag \<lparr>tagName = tagToAdd, datapointIds = [dp]\<rparr>"

definition removeRequest :: "datapoint_id \<Rightarrow> jsstring \<Rightarrow> request" where
  "removeRequest dp tagToRemove = UnTag \<lparr>tagName = tagToRemove, datapointIds = [dp]\<rparr>"

text \<open>
  \<open>onSubmitName\<close>: leave edit mode, parse both lines, return if the two lines are the
  same string; otherwise call \<^verbatim>\<open>addTag\<close> for each tag to add, then \<^verbatim>\<open>unTag\<close>
  for each tag to remove, and show the edited list.
\<close>

definition onSubmitName :: "component \<Rightarrow> component" where
  "onSubmitName c =
     (let c1 = c\<lparr>isEditing := False\<rparr>;
          newTagsArray = parseTags (tagString c);
          originalTagsArray = parseTags (originalTagString c)
      in if tagString c = originalTagString c then c1
         else
           (let toRemove = removeTags originalTagsArray newTagsArray;
                toAdd = addTags originalTagsArray newTagsArray;
                toKeep = keepTags originalTagsArray newTagsArray;
                c2 = issue (map (addRequest (datapointId c)) toAdd) c1;
                c3 = issue (map (removeRequest (datapointId c)) toRemove) c2
            in c3\<lparr>tagsArray := newTagsArray\<rparr>))"

text \<open>
  A call settles: the callback given to \<^verbatim>\<open>then\<close> has an empty body, so only the
  call stops being outstanding, whatever the outcome.
\<close>

definition settle :: "request \<Rightarrow> outcome \<Rightarrow> component \<Rightarrow> component" where
  "settle r res c = c\<lparr>outstanding := remove1 r (outstanding c)\<rparr>"

text \<open>
  The spinner is an element of the tag display, which is rendered when the component is
  not editing, and is rendered there when \<^verbatim>\<open>isUpdating\<close> holds.
\<close>

definition spinnerShown :: "component \<Rightarrow> bool" where
  "spinnerShown c = (\<not> isEditing c \<and> isUpdating c)"

subsection \<open>Events\<close>

text \<open>
  What can happen to a mounted component: the \<^verbatim>\<open>tags\<close> property changes, the user
  clicks the tag display, types in the text area, submits (the form's submit or the
  Enter key), the text area loses focus, or an outstanding call settles. The tag display
  exists only while not editing and the text area only while editing; an event whose
  element is not rendered does not happen, and \<open>step\<close> leaves the state as it is.
\<close>

datatype event =
    TagsChanged "tag_edge list"
  | Click
  | Change jsstring
  | Submit
  | Blur
  | Settled request outcome

fun enabled :: "component \<Rightarrow> event \<Rightarrow> bool" where
  "enabled c (TagsChanged tags) = True"
| "enabled c Click = (\<not> isEditing c)"
| "enabled c (Change v) = isEditing c"
| "enabled c Submit = isEditing c"
| "enabled c Blur = isEditing c"
| "enabled c (Settled r res) = (r \<in> set (outstanding c))"

fun handle :: "event \<Rightarrow> component \<Rightarrow> component" where
  "handle (TagsChanged tags) c = useEffectTags tags c"
| "handle Click c = onClick c"
| "handle (Change v) c = checkAndSetName v c"
| "handle Submit c = onSubmitName c"
| "handle Blur c = handleBlur c"
| "handle (Settled r res) c = settle r res c"

definition step :: "component \<Rightarrow> event \<Rightarrow> component" where
  "step c e = (if enabled c e then handle e c else c)"

definition run :: "component \<Rightarrow> event list \<Rightarrow> component" where
  "run c es = foldl step c es"

subsection \<open>Vocabulary of the properties\<close>


text \<open>The shown tag list written as one line, the way the effect writes it.\<close>

definition serialized :: "component \<Rightarrow> jsstring" where
  "serialized c = join commaSpace (tagsArray c)"

text \<open>
  The stored strings agree with the shown tag list: the original line is its
  serialization, and so is the edited line unless the component is editing.
\<close>

definition consistent :: "component \<Rightarrow> bool" where
  "consistent c =
     (originalTagString c = serialized c \<and> (isEditing c \<or> tagString c = serialized c))"

text \<open>A submit that happens (the component is editing) with a line that was changed.\<close>

definition differingSubmit :: "component \<Rightarrow> event \<Rightarrow> bool" where
  "differingSubmit c e = (e = Submit \<and> isEditing c \<and> tagString c \<noteq> originalTagString c)"

fun noDifferingSubmit :: "component \<Rightarrow> event list \<Rightarrow> bool" where
  "noDifferingSubmit c [] = True"
| "noDifferingSubmit c (e # es) = (\<not> differingSubmit c e \<and> noDifferingSubmit (step c e) es)"

fun isTagsChanged :: "event \<Rightarrow> bool" where
  "isTagsChanged (TagsChanged tags) = True"
| "isTagsChanged e = False"


text \<open>The calls a state has made beyond those of an earlier state.\<close>

definition newCalls :: "component \<Rightarrow> component \<Rightarrow> request list" where
  "newCalls c c' = drop (length (calls c)) (calls c')"

section \<open>Properties\<close>

subsection \<open>Array and string methods\<close>

lemma arrayIncludes_iff: "arrayIncludes xs x \<longleftrightarrow> x \<in> set xs"
  by (induction xs) auto

lemma removeTags_filter: "removeTags orig new = filter (\<lambda>x. x \<notin> set new) orig"
  by (simp add: removeTags_def arrayIncludes_iff)

lemma addTags_filter: "addTags orig new = filter (\<lambda>x. x \<notin> set orig) new"
  by (simp add: addTags_def arrayIncludes_iff)

lemma set_removeTags: "set (removeTags orig new) = set orig - set new"
  by (auto simp: removeTags_filter)

lemma set_addTags: "set (addTags orig new) = set new - set orig"
  by (auto simp: addTags_filter)

lemma split_on_not_Nil: "split_on sep s \<noteq> []"
  by (induction s) (auto split: list.splits)

lemma join_Cons: "ps \<noteq> [] \<Longrightarrow> join sep (p # ps) = p @ sep @ join sep ps"
  by (cases ps) auto

text \<open>Joining the pieces with the separator gives the string back.\<close>

lemma join_split_on: "join [sep] (split_on sep s) = s"
proof (induction s)
  case Nil
  show ?case by simp
next
  case (Cons c cs)
  show ?case
  proof (cases "c = sep")
    case True
    with Cons show ?thesis by (simp add: join_Cons split_on_not_Nil)
  next
    case False
    obtain p ps where sp: "split_on sep cs = p # ps"
      using split_on_not_Nil [of sep cs] by (cases "split_on sep cs") auto
    with Cons False show ?thesis by (cases ps) auto
  qed
qed

lemma split_on_no_sep: "p \<in> set (split_on sep s) \<Longrightarrow> sep \<notin> set p"
  by (induction s arbitrary: p) (auto split: if_splits list.splits)

lemma length_split_on: "length (split_on sep s) = Suc (length (filter (\<lambda>c. c = sep) s))"
  by (induction s) (auto split: list.splits simp: split_on_not_Nil)

text \<open>\<open>trim\<close> cuts a run of white space off each end, and each run is maximal.\<close>

lemma trim_decompose:
  "\<exists>l r. p = l @ trim p @ r \<and> list_all isWhiteSpace l \<and> list_all isWhiteSpace r"
proof -
  let ?l = "takeWhile isWhiteSpace p"
  let ?m = "dropWhile isWhiteSpace p"
  let ?r = "rev (takeWhile isWhiteSpace (rev ?m))"
  have "?m = trim p @ ?r"
    unfolding trim_def by (metis rev_append rev_rev_ident takeWhile_dropWhile_id)
  then have "p = ?l @ trim p @ ?r" by (metis takeWhile_dropWhile_id)
  moreover have "list_all isWhiteSpace ?l" by (simp add: list_all_iff) (meson set_takeWhileD)
  moreover have "list_all isWhiteSpace ?r" by (simp add: list_all_iff) (meson set_takeWhileD)
  ultimately show ?thesis by blast
qed

lemma trim_ends:
  "trim p \<noteq> [] \<Longrightarrow> \<not> isWhiteSpace (hd (trim p)) \<and> \<not> isWhiteSpace (last (trim p))"
proof -
  assume ne: "trim p \<noteq> []"
  let ?m = "dropWhile isWhiteSpace p"
  let ?k = "dropWhile isWhiteSpace (rev ?m)"
  have k: "?k \<noteq> []" using ne by (simp add: trim_def)
  then have hk: "\<not> isWhiteSpace (hd ?k)" by (rule hd_dropWhile)
  then have l: "\<not> isWhiteSpace (last (trim p))" using k by (simp add: trim_def last_rev)
  have m: "?m \<noteq> []"
  proof
    assume a: "?m = []"
    have "?k = []" by (simp only: a rev.simps dropWhile.simps)
    with k show False by simp
  qed
  then have hm: "\<not> isWhiteSpace (hd ?m)" by (rule hd_dropWhile)
  have "hd ?k \<in> set (rev ?m)" using k by (meson hd_in_set set_dropWhileD)
  then have "last ?k = last (rev ?m)" using hk by (rule dropWhile_last)
  then have "last ?k = hd ?m" using m by (simp add: last_rev)
  then have "hd (trim p) = hd ?m" using k by (simp add: trim_def hd_rev)
  with hm l show ?thesis by simp
qed

subsection \<open>Evaluating the model on examples\<close>

lemmas string_defs = utf16_def parseTags_def comma_def commaSpace_def trim_def isWhiteSpace_def

lemmas handler_defs =
  run_def step_def mount_def initial_def useEffectTags_def onClick_def checkAndSetName_def
  handleBlur_def onSubmitName_def issue_def settle_def addRequest_def removeRequest_def
  removeTags_def addTags_def keepTags_def tagNamed_def newCalls_def Let_def

subsection \<open>Runs of events\<close>

text \<open>Runs of events, and calls that settle.\<close>

lemma run_Nil: "run c [] = c"
  by (simp add: run_def)

lemma run_Cons: "run c (e # es) = run (step c e) es"
  by (simp add: run_def)










text \<open>
  The effect makes the two stored lines the serialization of the shown tag list. Every
  event keeps that, a submit with a changed line apart: it replaces the shown list and
  leaves both lines as they are. Only the effect writes the original line.
\<close>

lemma consistent_useEffectTags: "consistent (useEffectTags tags c)"
  by (simp add: consistent_def serialized_def useEffectTags_def Let_def)

lemma consistent_step:
  "consistent c \<Longrightarrow> \<not> differingSubmit c e \<Longrightarrow> consistent (step c e)"
  by (cases e)
    (auto simp: consistent_def serialized_def step_def differingSubmit_def useEffectTags_def
      onClick_def checkAndSetName_def onSubmitName_def handleBlur_def settle_def Let_def)

lemma consistent_run:
  "consistent c \<Longrightarrow> noDifferingSubmit c es \<Longrightarrow> consistent (run c es)"
  by (induction es arbitrary: c) (simp_all add: run_Nil run_Cons consistent_step)

lemma step_keeps_original:
  "\<not> isTagsChanged e \<Longrightarrow> originalTagString (step c e) = originalTagString c"
  by (cases e)
    (simp_all add: step_def onClick_def checkAndSetName_def onSubmitName_def handleBlur_def
      settle_def issue_def Let_def)

lemma run_keeps_original:
  "list_all (\<lambda>e. \<not> isTagsChanged e) es \<Longrightarrow>
   originalTagString (run c es) = originalTagString c"
  by (induction es arbitrary: c) (simp_all add: run_Nil run_Cons step_keeps_original)


subsection \<open>The diff of the original and the edited tag list\<close>

text \<open>
  C1. For every original and every edited tag list, the tags to remove are exactly the
  elements of the original list that occur nowhere in the edited list, and the tags to
  add exactly the elements of the edited list that occur nowhere in the original list,
  where occurring means being the same text. The two results share no element, and they
  do not depend on the order of the two lists: lists with the same elements give the
  same sets, and reordered lists the same results up to order. In \<open>onSubmitName\<close> the
  two lists are the parsed original line and the parsed edited line, and the calls of a
  submit with a changed line are one \<^verbatim>\<open>addTag\<close> per tag to add and one
  \<^verbatim>\<open>unTag\<close> per tag to remove.
\<close>

theorem reconciler_diff:
  "removeTags original edited = filter (\<lambda>x. x \<notin> set edited) original \<and>
   addTags original edited = filter (\<lambda>x. x \<notin> set original) edited \<and>
   set (addTags original edited) \<inter> set (removeTags original edited) = {} \<and>
   (\<forall>original' edited'. set original' = set original \<and> set edited' = set edited \<longrightarrow>
      set (removeTags original' edited') = set (removeTags original edited) \<and>
      set (addTags original' edited') = set (addTags original edited)) \<and>
   (\<forall>original' edited'. mset original' = mset original \<and> mset edited' = mset edited \<longrightarrow>
      mset (removeTags original' edited') = mset (removeTags original edited) \<and>
      mset (addTags original' edited') = mset (addTags original edited)) \<and>
   (tagString c \<noteq> originalTagString c \<longrightarrow>
      newCalls c (onSubmitName c) =
        map (addRequest (datapointId c))
          (addTags (parseTags (originalTagString c)) (parseTags (tagString c))) @
        map (removeRequest (datapointId c))
          (removeTags (parseTags (originalTagString c)) (parseTags (tagString c))))"
proof -
  have a: "set (addTags original edited) \<inter> set (removeTags original edited) = {}"
    by (auto simp: set_addTags set_removeTags)
  have b: "\<And>original' edited'. set original' = set original \<and> set edited' = set edited \<longrightarrow>
      set (removeTags original' edited') = set (removeTags original edited) \<and>
      set (addTags original' edited') = set (addTags original edited)"
    by (simp add: set_addTags set_removeTags)
  have c: "\<And>original' edited'. mset original' = mset original \<and> mset edited' = mset edited \<longrightarrow>
      mset (removeTags original' edited') = mset (removeTags original edited) \<and>
      mset (addTags original' edited') = mset (addTags original edited)"
  proof (intro impI, elim conjE)
    fix original' edited'
    assume o: "mset original' = mset original" and e: "mset edited' = mset edited"
    have so: "set original' = set original" using o by (rule mset_eq_setD)
    have se: "set edited' = set edited" using e by (rule mset_eq_setD)
    show "mset (removeTags original' edited') = mset (removeTags original edited) \<and>
      mset (addTags original' edited') = mset (addTags original edited)"
      by (simp add: removeTags_filter addTags_filter so se o e)
  qed
  have d: "tagString c \<noteq> originalTagString c \<longrightarrow>
      newCalls c (onSubmitName c) =
        map (addRequest (datapointId c))
          (addTags (parseTags (originalTagString c)) (parseTags (tagString c))) @
        map (removeRequest (datapointId c))
          (removeTags (parseTags (originalTagString c)) (parseTags (tagString c)))"
    by (simp add: newCalls_def onSubmitName_def issue_def Let_def)
  show ?thesis
    by (intro conjI allI) (rule removeTags_filter addTags_filter a b c d)+
qed

text \<open>
  An instance: original a, b and edited b, c give a to remove and c to add, also with
  both lists reversed, and the submit makes these two calls.
\<close>

theorem reconciler_diff_witness:
  "removeTags [utf16 ''a'', utf16 ''b''] [utf16 ''b'', utf16 ''c''] = [utf16 ''a''] \<and>
   addTags [utf16 ''a'', utf16 ''b''] [utf16 ''b'', utf16 ''c''] = [utf16 ''c''] \<and>
   removeTags [utf16 ''b'', utf16 ''a''] [utf16 ''c'', utf16 ''b''] = [utf16 ''a''] \<and>
   tagString (run (mount [tagNamed (utf16 ''a''), tagNamed (utf16 ''b'')] 7)
                [Click, Change (utf16 ''b, c'')]) \<noteq>
   originalTagString (run (mount [tagNamed (utf16 ''a''), tagNamed (utf16 ''b'')] 7)
                [Click, Change (utf16 ''b, c'')]) \<and>
   newCalls (run (mount [tagNamed (utf16 ''a''), tagNamed (utf16 ''b'')] 7)
                [Click, Change (utf16 ''b, c'')])
     (onSubmitName (run (mount [tagNamed (utf16 ''a''), tagNamed (utf16 ''b'')] 7)
                [Click, Change (utf16 ''b, c'')])) =
     [addRequest 7 (utf16 ''c''), removeRequest 7 (utf16 ''a'')]"
  using reconciler_diff [of "[utf16 ''a'', utf16 ''b'']" "[utf16 ''b'', utf16 ''c'']"
      "run (mount [tagNamed (utf16 ''a''), tagNamed (utf16 ''b'')] 7)
         [Click, Change (utf16 ''b, c'')]"]
  by (simp add: string_defs handler_defs)

subsection \<open>Parsing\<close>

text \<open>
  C7. For every line, parsing splits at the commas and trims each piece, and filters
  nothing. Splitting: the pieces joined by commas are the line again and no piece holds
  a comma, so there is one piece more than there are commas. Trimming: a piece is its
  trimmed text between two runs of white space, and the trimmed text neither starts nor
  ends with white space. So the line " a ,  b" parses to a, b, and a comma at the end,
  two commas in a row and the empty line each give an empty text in the result. Parsing
  is a total function: every line has a result.
\<close>

theorem parseTags_spec:
  "join [comma] (split_on comma s) = s \<and>
   list_all (\<lambda>p. comma \<notin> set p) (split_on comma s) \<and>
   parseTags s = map trim (split_on comma s) \<and>
   length (parseTags s) = Suc (length (filter (\<lambda>c. c = comma) s)) \<and>
   (\<forall>p. \<exists>l r. p = l @ trim p @ r \<and> list_all isWhiteSpace l \<and> list_all isWhiteSpace r) \<and>
   (\<forall>p. trim p \<noteq> [] \<longrightarrow> \<not> isWhiteSpace (hd (trim p)) \<and> \<not> isWhiteSpace (last (trim p))) \<and>
   parseTags (utf16 '' a ,  b'') = [utf16 ''a'', utf16 ''b''] \<and>
   parseTags (utf16 ''a,'') = [utf16 ''a'', []] \<and>
   parseTags (utf16 ''a,,b'') = [utf16 ''a'', [], utf16 ''b''] \<and>
   parseTags [] = [[]]"
proof -
  have a: "list_all (\<lambda>p. comma \<notin> set p) (split_on comma s)"
    by (simp add: list_all_iff split_on_no_sep)
  have b: "length (parseTags s) = Suc (length (filter (\<lambda>c. c = comma) s))"
    by (simp add: parseTags_def length_split_on)
  have c: "\<forall>p. trim p \<noteq> [] \<longrightarrow> \<not> isWhiteSpace (hd (trim p)) \<and> \<not> isWhiteSpace (last (trim p))"
    using trim_ends by blast
  have d: "\<forall>p. \<exists>l r. p = l @ trim p @ r \<and> list_all isWhiteSpace l \<and> list_all isWhiteSpace r"
    using trim_decompose by blast
  have e1: "parseTags (utf16 '' a ,  b'') = [utf16 ''a'', utf16 ''b'']"
    by (simp add: string_defs)
  have e2: "parseTags (utf16 ''a,'') = [utf16 ''a'', []]"
    by (simp add: string_defs)
  have e3: "parseTags (utf16 ''a,,b'') = [utf16 ''a'', [], utf16 ''b'']"
    by (simp add: string_defs)
  have e4: "parseTags [] = [[]]"
    by (simp add: string_defs)
  show ?thesis
    by (intro conjI) (rule join_split_on a parseTags_def b c d e1 e2 e3 e4)+
qed

text \<open>An instance: a line with an empty piece inside and one at the end.\<close>

theorem parseTags_spec_witness:
  "join [comma] (split_on comma (utf16 ''x , ,y,'')) = utf16 ''x , ,y,'' \<and>
   parseTags (utf16 ''x , ,y,'') = [utf16 ''x'', [], utf16 ''y'', []] \<and>
   length (parseTags (utf16 ''x , ,y,'')) = 4 \<and>
   trim (utf16 ''  x y '') = utf16 ''x y'' \<and>
   \<not> isWhiteSpace (hd (trim (utf16 ''  x y '')))"
  using parseTags_spec [of "utf16 ''x , ,y,''"]
  by (simp add: string_defs)

subsection \<open>Submitting\<close>




text \<open>
  C6. A submit whose edited line parses to the same texts as the original line makes no
  call, also when the two lines differ as strings and the comparison of the lines does
  not stop the submit, as with the original a, b and the edited line "b, a".
\<close>

theorem submit_same_texts_no_calls:
  "set (parseTags (tagString c)) = set (parseTags (originalTagString c)) \<Longrightarrow>
     newCalls c (onSubmitName c) = [] \<and>
     calls (onSubmitName c) = calls c \<and>
     outstanding (onSubmitName c) = outstanding c \<and>
     calls (step c Submit) = calls c \<and>
     outstanding (step c Submit) = outstanding c"
  by (simp add: onSubmitName_def step_def newCalls_def issue_def Let_def
      removeTags_filter addTags_filter)

text \<open>An instance: the lines "a, b" and "b, a" differ, and the submit makes no call.\<close>

theorem submit_same_texts_no_calls_witness:
  "tagString (run (mount [tagNamed (utf16 ''a''), tagNamed (utf16 ''b'')] 7)
      [Click, Change (utf16 ''b, a'')]) \<noteq>
   originalTagString (run (mount [tagNamed (utf16 ''a''), tagNamed (utf16 ''b'')] 7)
      [Click, Change (utf16 ''b, a'')]) \<and>
   set (parseTags (tagString (run (mount [tagNamed (utf16 ''a''), tagNamed (utf16 ''b'')] 7)
      [Click, Change (utf16 ''b, a'')]))) =
   set (parseTags (originalTagString (run (mount [tagNamed (utf16 ''a''), tagNamed (utf16 ''b'')] 7)
      [Click, Change (utf16 ''b, a'')]))) \<and>
   calls (run (mount [tagNamed (utf16 ''a''), tagNamed (utf16 ''b'')] 7)
      [Click, Change (utf16 ''b, a''), Submit]) = [] \<and>
   tagsArray (run (mount [tagNamed (utf16 ''a''), tagNamed (utf16 ''b'')] 7)
      [Click, Change (utf16 ''b, a''), Submit]) = [utf16 ''b'', utf16 ''a'']"
  using submit_same_texts_no_calls
    [of "run (mount [tagNamed (utf16 ''a''), tagNamed (utf16 ''b'')] 7)
      [Click, Change (utf16 ''b, a'')]"]
  by (simp add: string_defs handler_defs insert_commute)




subsection \<open>Discarding\<close>






subsection \<open>The stored lines and the shown tag list\<close>

text \<open>
  C5, as stated, fails: after the original a the line "a,b" is submitted. The component
  is not editing, the shown list a, b serializes to "a, b", the edited line is still
  "a,b" and the original line is still "a".
\<close>

theorem consistency_counterexample:
  "\<not> isEditing (run (mount [tagNamed (utf16 ''a'')] 7) [Click, Change (utf16 ''a,b''), Submit]) \<and>
   tagsArray (run (mount [tagNamed (utf16 ''a'')] 7) [Click, Change (utf16 ''a,b''), Submit]) =
     [utf16 ''a'', utf16 ''b''] \<and>
   join commaSpace
     (tagsArray (run (mount [tagNamed (utf16 ''a'')] 7) [Click, Change (utf16 ''a,b''), Submit])) =
     utf16 ''a, b'' \<and>
   tagString (run (mount [tagNamed (utf16 ''a'')] 7) [Click, Change (utf16 ''a,b''), Submit]) =
     utf16 ''a,b'' \<and>
   originalTagString (run (mount [tagNamed (utf16 ''a'')] 7) [Click, Change (utf16 ''a,b''), Submit]) =
     utf16 ''a'' \<and>
   tagString (run (mount [tagNamed (utf16 ''a'')] 7) [Click, Change (utf16 ''a,b''), Submit]) \<noteq>
     join commaSpace
       (tagsArray (run (mount [tagNamed (utf16 ''a'')] 7) [Click, Change (utf16 ''a,b''), Submit])) \<and>
   originalTagString (run (mount [tagNamed (utf16 ''a'')] 7) [Click, Change (utf16 ''a,b''), Submit]) \<noteq>
     join commaSpace
       (tagsArray (run (mount [tagNamed (utf16 ''a'')] 7) [Click, Change (utf16 ''a,b''), Submit]))"
  by (simp add: string_defs handler_defs)

text \<open>
  C5, amended. Start from any state in which the effect has just run for the current
  \<^verbatim>\<open>tags\<close>, and let any events follow among which no submit has a changed line.
  Then the original line is the comma-join of the shown tag list, and when the component
  is not editing so is the edited line.
\<close>

theorem consistency_without_differing_submit:
  "noDifferingSubmit (useEffectTags tags c) es \<Longrightarrow>
     originalTagString (run (useEffectTags tags c) es) =
       join commaSpace (tagsArray (run (useEffectTags tags c) es)) \<and>
     (\<not> isEditing (run (useEffectTags tags c) es) \<longrightarrow>
        tagString (run (useEffectTags tags c) es) =
          join commaSpace (tagsArray (run (useEffectTags tags c) es)))"
proof -
  assume "noDifferingSubmit (useEffectTags tags c) es"
  then have "consistent (run (useEffectTags tags c) es)"
    using consistent_useEffectTags by (rule consistent_run [rotated])
  then show ?thesis by (auto simp: consistent_def serialized_def)
qed

text \<open>
  An instance: type, leave, enter again and submit the unchanged line; all three agree
  on a.
\<close>

theorem consistency_without_differing_submit_witness:
  "noDifferingSubmit (useEffectTags [tagNamed (utf16 ''a'')] (initial 7))
     [Click, Change (utf16 ''a, b''), Blur, Click, Submit] \<and>
   \<not> isEditing (run (useEffectTags [tagNamed (utf16 ''a'')] (initial 7))
     [Click, Change (utf16 ''a, b''), Blur, Click, Submit]) \<and>
   tagString (run (useEffectTags [tagNamed (utf16 ''a'')] (initial 7))
     [Click, Change (utf16 ''a, b''), Blur, Click, Submit]) = utf16 ''a'' \<and>
   originalTagString (run (useEffectTags [tagNamed (utf16 ''a'')] (initial 7))
     [Click, Change (utf16 ''a, b''), Blur, Click, Submit]) = utf16 ''a'' \<and>
   join commaSpace (tagsArray (run (useEffectTags [tagNamed (utf16 ''a'')] (initial 7))
     [Click, Change (utf16 ''a, b''), Blur, Click, Submit])) = utf16 ''a''"
  using consistency_without_differing_submit
    [of "[tagNamed (utf16 ''a'')]" "initial 7" "[Click, Change (utf16 ''a, b''), Blur, Click, Submit]"]
  by (simp add: string_defs handler_defs differingSubmit_def)

text \<open>
  C3, as stated, fails: after the original a the line "a,b" is submitted and the tag
  display is clicked again. The component is editing, the shown list serializes to
  "a, b", but the edited line is "a,b" as typed and the original line is still "a"; a
  second submit of the untouched line diffs against "a" and asks to add b once more.
\<close>

theorem snapshot_counterexample:
  "isEditing (run (mount [tagNamed (utf16 ''a'')] 7)
     [Click, Change (utf16 ''a,b''), Submit, Click]) \<and>
   join commaSpace (tagsArray (run (mount [tagNamed (utf16 ''a'')] 7)
     [Click, Change (utf16 ''a,b''), Submit, Click])) = utf16 ''a, b'' \<and>
   tagString (run (mount [tagNamed (utf16 ''a'')] 7)
     [Click, Change (utf16 ''a,b''), Submit, Click]) = utf16 ''a,b'' \<and>
   originalTagString (run (mount [tagNamed (utf16 ''a'')] 7)
     [Click, Change (utf16 ''a,b''), Submit, Click]) = utf16 ''a'' \<and>
   newCalls
     (run (mount [tagNamed (utf16 ''a'')] 7) [Click, Change (utf16 ''a,b''), Submit, Click])
     (run (mount [tagNamed (utf16 ''a'')] 7) [Click, Change (utf16 ''a,b''), Submit, Click, Submit]) =
     [addRequest 7 (utf16 ''b'')]"
  by (simp add: string_defs handler_defs)

text \<open>
  C3, amended. A click on the tag display only enters edit mode: the edited line, the
  original line and the shown tag list stay as they are. The original line is written by
  the effect alone, as the comma-join of the tag names received, and no other event
  changes it; it is the original side of the diff of a submit with a changed line. When
  no submit with a changed line has happened since the effect last ran, the edited line
  and the original line on entering edit mode both are the serialization of the shown
  tag list.
\<close>

theorem snapshot_taken_at_tags_change:
  "(\<not> isEditing c \<longrightarrow> step c Click = c\<lparr>isEditing := True\<rparr>) \<and>
   originalTagString (step c (TagsChanged tags)) =
     join commaSpace (map (\<lambda>t. name (tag t)) tags) \<and>
   (list_all (\<lambda>e. \<not> isTagsChanged e) es \<longrightarrow>
      originalTagString (run c es) = originalTagString c) \<and>
   (isEditing c \<and> tagString c \<noteq> originalTagString c \<longrightarrow>
      newCalls c (step c Submit) =
        map (addRequest (datapointId c))
          (addTags (parseTags (originalTagString c)) (parseTags (tagString c))) @
        map (removeRequest (datapointId c))
          (removeTags (parseTags (originalTagString c)) (parseTags (tagString c)))) \<and>
   (noDifferingSubmit (useEffectTags tags c) es \<and> \<not> isEditing (run (useEffectTags tags c) es) \<longrightarrow>
      isEditing (step (run (useEffectTags tags c) es) Click) \<and>
      tagString (step (run (useEffectTags tags c) es) Click) =
        join commaSpace (tagsArray (step (run (useEffectTags tags c) es) Click)) \<and>
      originalTagString (step (run (useEffectTags tags c) es) Click) =
        join commaSpace (tagsArray (step (run (useEffectTags tags c) es) Click)))"
proof -
  have a: "\<not> isEditing c \<longrightarrow> step c Click = c\<lparr>isEditing := True\<rparr>"
    by (simp add: step_def onClick_def)
  have b: "originalTagString (step c (TagsChanged tags)) =
      join commaSpace (map (\<lambda>t. name (tag t)) tags)"
    by (simp add: step_def useEffectTags_def Let_def)
  have k: "list_all (\<lambda>e. \<not> isTagsChanged e) es \<longrightarrow>
      originalTagString (run c es) = originalTagString c"
    using run_keeps_original by blast
  have d: "isEditing c \<and> tagString c \<noteq> originalTagString c \<longrightarrow>
      newCalls c (step c Submit) =
        map (addRequest (datapointId c))
          (addTags (parseTags (originalTagString c)) (parseTags (tagString c))) @
        map (removeRequest (datapointId c))
          (removeTags (parseTags (originalTagString c)) (parseTags (tagString c)))"
    by (simp add: step_def newCalls_def onSubmitName_def issue_def Let_def)
  have e: "isEditing (step (run (useEffectTags tags c) es) Click) \<and>
      tagString (step (run (useEffectTags tags c) es) Click) =
        join commaSpace (tagsArray (step (run (useEffectTags tags c) es) Click)) \<and>
      originalTagString (step (run (useEffectTags tags c) es) Click) =
        join commaSpace (tagsArray (step (run (useEffectTags tags c) es) Click))"
    if n: "noDifferingSubmit (useEffectTags tags c) es"
      and v: "\<not> isEditing (run (useEffectTags tags c) es)"
  proof -
    have "consistent (run (useEffectTags tags c) es)"
      using consistent_useEffectTags n by (rule consistent_run)
    then show ?thesis
      using v by (simp add: consistent_def serialized_def step_def onClick_def)
  qed
  show ?thesis using a b k d e by blast
qed

text \<open>
  An instance: the click changes the mode only; the original line stays "a" through a
  changed submit and a second click, and becomes "a, b" when the tags a, b arrive; the
  line "b" submitted over the original "a" adds b and removes a.
\<close>

theorem snapshot_taken_at_tags_change_witness:
  "\<not> isEditing (mount [tagNamed (utf16 ''a'')] 7) \<and>
   step (mount [tagNamed (utf16 ''a'')] 7) Click = (mount [tagNamed (utf16 ''a'')] 7)\<lparr>isEditing := True\<rparr> \<and>
   originalTagString (run (mount [tagNamed (utf16 ''a'')] 7)
     [Click, Change (utf16 ''a,b''), Submit, Click]) = utf16 ''a'' \<and>
   originalTagString (step (run (mount [tagNamed (utf16 ''a'')] 7)
     [Click, Change (utf16 ''a,b''), Submit, Click])
       (TagsChanged [tagNamed (utf16 ''a''), tagNamed (utf16 ''b'')])) = utf16 ''a, b'' \<and>
   tagString (step (run (useEffectTags [tagNamed (utf16 ''a''), tagNamed (utf16 ''b'')] (initial 7))
     [Click, Blur]) Click) = utf16 ''a, b'' \<and>
   isEditing (run (mount [tagNamed (utf16 ''a'')] 7) [Click, Change (utf16 ''b'')]) \<and>
   tagString (run (mount [tagNamed (utf16 ''a'')] 7) [Click, Change (utf16 ''b'')]) \<noteq>
     originalTagString (run (mount [tagNamed (utf16 ''a'')] 7) [Click, Change (utf16 ''b'')]) \<and>
   newCalls (run (mount [tagNamed (utf16 ''a'')] 7) [Click, Change (utf16 ''b'')])
     (step (run (mount [tagNamed (utf16 ''a'')] 7) [Click, Change (utf16 ''b'')]) Submit) =
     [addRequest 7 (utf16 ''b''), removeRequest 7 (utf16 ''a'')]"
  using snapshot_taken_at_tags_change
    [of "mount [tagNamed (utf16 ''a'')] 7" "[]" "[Click, Change (utf16 ''a,b''), Submit, Click]"]
    snapshot_taken_at_tags_change
    [of "run (mount [tagNamed (utf16 ''a'')] 7) [Click, Change (utf16 ''b'')]" "[]" "[]"]
    snapshot_taken_at_tags_change
    [of "initial 7" "[tagNamed (utf16 ''a''), tagNamed (utf16 ''b'')]" "[Click, Blur]"]
  by (simp add: string_defs handler_defs differingSubmit_def)

subsection \<open>The busy indicator\<close>

text \<open>No handler and no effect calls \<^verbatim>\<open>setIsUpdating\<close>.\<close>

lemma step_isUpdating: "isUpdating (step c e) = isUpdating c"
  by (cases e)
    (simp_all add: step_def useEffectTags_def onClick_def checkAndSetName_def onSubmitName_def
      handleBlur_def settle_def issue_def Let_def)

lemma run_isUpdating: "isUpdating (run c es) = isUpdating c"
  by (induction es arbitrary: c) (simp_all add: run_Nil run_Cons step_isUpdating)

text \<open>
  C9 asks for the spinner to be shown exactly while a call is outstanding. After the
  original a the line "a, b" is submitted: the call adding b is outstanding, the tag
  display is rendered, and the spinner is not shown. In fact the spinner is shown in no
  state the component reaches.
\<close>

theorem spinner_not_shown_while_outstanding:
  "outstanding (run (mount [tagNamed (utf16 ''a'')] 7) [Click, Change (utf16 ''a, b''), Submit]) =
     [addRequest 7 (utf16 ''b'')] \<and>
   \<not> isEditing (run (mount [tagNamed (utf16 ''a'')] 7) [Click, Change (utf16 ''a, b''), Submit]) \<and>
   \<not> spinnerShown (run (mount [tagNamed (utf16 ''a'')] 7) [Click, Change (utf16 ''a, b''), Submit]) \<and>
   (\<forall>tags dp es. \<not> spinnerShown (run (mount tags dp) es))"
proof -
  have "\<not> isUpdating (run (mount tags dp) es)" for tags dp es
    by (simp add: run_isUpdating mount_def useEffectTags_def initial_def Let_def)
  then have g: "\<forall>tags dp es. \<not> spinnerShown (run (mount tags dp) es)"
    by (simp add: spinnerShown_def)
  have o: "outstanding (run (mount [tagNamed (utf16 ''a'')] 7) [Click, Change (utf16 ''a, b''), Submit]) =
     [addRequest 7 (utf16 ''b'')]"
    by (simp add: string_defs handler_defs)
  have e: "\<not> isEditing (run (mount [tagNamed (utf16 ''a'')] 7) [Click, Change (utf16 ''a, b''), Submit])"
    by (simp add: string_defs handler_defs)
  show ?thesis using g o e by blast
qed

subsection \<open>The empty tag name\<close>

text \<open>
  C10, as stated, fails in both halves. Over an empty original the line "x," adds x and
  removes nothing, since the piece after the comma is the empty text, which the original
  has too. Over the original a and a tag with the empty name, the emptied line removes a
  and adds nothing.
\<close>

theorem empty_name_counterexample:
  "calls (run (mount [] 7) [Click, Change (utf16 ''x,''), Submit]) = [addRequest 7 (utf16 ''x'')] \<and>
   originalTagString (mount [tagNamed (utf16 ''a''), tagNamed []] 7) = utf16 ''a, '' \<and>
   calls (run (mount [tagNamed (utf16 ''a''), tagNamed []] 7) [Click, Change [], Submit]) =
     [removeRequest 7 (utf16 ''a'')]"
  by (simp add: string_defs handler_defs)

text \<open>
  C10, amended. With no tags the original line is empty, and the empty line parses to
  the one empty text. A submit of a line that is not empty over the empty original asks
  to add every piece that is not empty, and asks to remove the tag with the empty name
  exactly when no piece of the line trims to the empty text. A submit of the empty line
  over an original line that is not empty asks to add the tag with the empty name exactly
  when no piece of the original line trims to the empty text, and asks to remove every
  piece of it that is not empty.
\<close>

theorem empty_name_requests:
  "originalTagString (useEffectTags [] c) = [] \<and>
   tagString (useEffectTags [] c) = [] \<and>
   parseTags [] = [[]] \<and>
   (originalTagString c = [] \<and> tagString c \<noteq> [] \<longrightarrow>
      newCalls c (onSubmitName c) =
        map (addRequest (datapointId c)) (filter (\<lambda>x. x \<noteq> []) (parseTags (tagString c))) @
        (if [] \<in> set (parseTags (tagString c)) then []
         else [removeRequest (datapointId c) []])) \<and>
   (tagString c = [] \<and> originalTagString c \<noteq> [] \<longrightarrow>
      newCalls c (onSubmitName c) =
        (if [] \<in> set (parseTags (originalTagString c)) then []
         else [addRequest (datapointId c) []]) @
        map (removeRequest (datapointId c))
          (filter (\<lambda>x. x \<noteq> []) (parseTags (originalTagString c))))"
proof -
  have p: "parseTags [] = [[]]"
    by (simp add: parseTags_def trim_def)
  have a: "originalTagString (useEffectTags [] c) = [] \<and> tagString (useEffectTags [] c) = []"
    by (simp add: useEffectTags_def Let_def)
  have b: "originalTagString c = [] \<and> tagString c \<noteq> [] \<longrightarrow>
      newCalls c (onSubmitName c) =
        map (addRequest (datapointId c)) (filter (\<lambda>x. x \<noteq> []) (parseTags (tagString c))) @
        (if [] \<in> set (parseTags (tagString c)) then []
         else [removeRequest (datapointId c) []])"
    by (simp add: newCalls_def onSubmitName_def issue_def Let_def p
        removeTags_filter addTags_filter)
  have d: "tagString c = [] \<and> originalTagString c \<noteq> [] \<longrightarrow>
      newCalls c (onSubmitName c) =
        (if [] \<in> set (parseTags (originalTagString c)) then []
         else [addRequest (datapointId c) []]) @
        map (removeRequest (datapointId c))
          (filter (\<lambda>x. x \<noteq> []) (parseTags (originalTagString c)))"
    by (simp add: newCalls_def onSubmitName_def issue_def Let_def p
        removeTags_filter addTags_filter)
  show ?thesis using p a b d by blast
qed

text \<open>
  An instance of each half: "x" over no tags adds x and removes the empty name; the
  empty line over a adds the empty name and removes a.
\<close>

theorem empty_name_requests_witness:
  "originalTagString (run (mount [] 7) [Click, Change (utf16 ''x'')]) = [] \<and>
   tagString (run (mount [] 7) [Click, Change (utf16 ''x'')]) \<noteq> [] \<and>
   [] \<notin> set (parseTags (tagString (run (mount [] 7) [Click, Change (utf16 ''x'')]))) \<and>
   calls (run (mount [] 7) [Click, Change (utf16 ''x''), Submit]) =
     [addRequest 7 (utf16 ''x''), removeRequest 7 []] \<and>
   tagString (run (mount [tagNamed (utf16 ''a'')] 7) [Click, Change []]) = [] \<and>
   originalTagString (run (mount [tagNamed (utf16 ''a'')] 7) [Click, Change []]) \<noteq> [] \<and>
   calls (run (mount [tagNamed (utf16 ''a'')] 7) [Click, Change [], Submit]) =
     [addRequest 7 [], removeRequest 7 (utf16 ''a'')]"
  using empty_name_requests [of "run (mount [] 7) [Click, Change (utf16 ''x'')]"]
    empty_name_requests [of "run (mount [tagNamed (utf16 ''a'')] 7) [Click, Change []]"]
  by (simp add: string_defs handler_defs)

end
